theory Spec2Isabelle
  imports Complex_Main "HOL-Library.Sublist" "HOL-Library.AList"
begin

section \<open>Python values, exceptions and strings\<close>

text \<open>
  The program of \<^verbatim>\<open>src/main.py\<close> handles decoded JSON bodies and builds dictionaries
  and lists of strings from them. A Python value is one of the shapes a decoded JSON body
  can have; a dictionary is an association list in insertion order with string keys.
  JSON numbers with a fraction (Python floats) are outside the model; strings are lists
  of bytes, so text is ASCII.
\<close>

datatype pyval =
    PNone
  | PBool bool
  | PInt int
  | PStr string
  | PList "pyval list"
  | PDict "(string \<times> pyval) list"

text \<open>Every exception the program can raise or let through is a value.\<close>

datatype pyerr =
    HTTPError int
  | KeyError string
  | TypeError
  | IndexError
  | ValueError string
  | JSONDecodeError
  | ExternalError string

subsection \<open>Decimal numerals\<close>

definition digit_char :: "nat \<Rightarrow> char" where
  "digit_char d = char_of (48 + d)"

function str_nat :: "nat \<Rightarrow> string" where
  "str_nat n = (if n < 10 then [digit_char n] else str_nat (n div 10) @ [digit_char (n mod 10)])"
  by pat_completeness auto
termination
  by (relation "measure (\<lambda>n. n)") auto

declare str_nat.simps [simp del]

definition str_int :: "int \<Rightarrow> string" where
  "str_int i = (if i < 0 then CHR ''-'' # str_nat (nat (- i)) else str_nat (nat i))"

subsection \<open>\<^verbatim>\<open>str\<close> and \<^verbatim>\<open>repr\<close>\<close>

definition hex_digit :: "nat \<Rightarrow> char" where
  "hex_digit d = (if d < 10 then char_of (48 + d) else char_of (87 + d))"

text \<open>
  \<^verbatim>\<open>repr\<close> of a string: single quotes, unless the string has a single quote and no
  double quote; the quote in use and the backslash are escaped, and so are the control
  characters.
\<close>

definition repr_char :: "char \<Rightarrow> char \<Rightarrow> string" where
  "repr_char q c =
     (if c = q \<or> c = CHR 0x5C then [CHR 0x5C, c]
      else if c = CHR 0x09 then [CHR 0x5C, CHR ''t'']
      else if c = CHR 0x0A then [CHR 0x5C, CHR ''n'']
      else if c = CHR 0x0D then [CHR 0x5C, CHR ''r'']
      else if of_char c < (32::nat) \<or> of_char c = (127::nat)
        then [CHR 0x5C, CHR ''x'', hex_digit (of_char c div 16), hex_digit (of_char c mod 16)]
      else [c])"

definition repr_str :: "string \<Rightarrow> string" where
  "repr_str s =
     (let q = (if CHR 0x27 \<in> set s \<and> CHR 0x22 \<notin> set s then CHR 0x22 else CHR 0x27)
      in [q] @ concat (map (repr_char q) s) @ [q])"

fun join :: "string \<Rightarrow> string list \<Rightarrow> string" where
  "join sep [] = []"
| "join sep [x] = x"
| "join sep (x # y # ys) = x @ sep @ join sep (y # ys)"

fun py_repr :: "pyval \<Rightarrow> string" where
  "py_repr PNone = ''None''"
| "py_repr (PBool b) = (if b then ''True'' else ''False'')"
| "py_repr (PInt i) = str_int i"
| "py_repr (PStr s) = repr_str s"
| "py_repr (PList xs) = ''['' @ join '', '' (map py_repr xs) @ '']''"
| "py_repr (PDict kvs) =
     ''{'' @ join '', '' (map (\<lambda>kv. repr_str (fst kv) @ '': '' @ py_repr (snd kv)) kvs) @ ''}''"

text \<open>What an f-string field \<^verbatim>\<open>{x}\<close> and \<^verbatim>\<open>str(x)\<close> produce.\<close>

fun py_str :: "pyval \<Rightarrow> string" where
  "py_str (PStr s) = s"
| "py_str v = py_repr v"

subsection \<open>Subscripting and iteration\<close>

text \<open>
  \<^verbatim>\<open>v[key]\<close> with a string key: a dictionary is looked up and raises \<^verbatim>\<open>KeyError\<close>
  on a missing key; every other value raises \<^verbatim>\<open>TypeError\<close>.
\<close>

fun py_getitem :: "pyval \<Rightarrow> string \<Rightarrow> pyerr + pyval" where
  "py_getitem (PDict kvs) k = (case map_of kvs k of None \<Rightarrow> Inl (KeyError k) | Some v \<Rightarrow> Inr v)"
| "py_getitem v k = Inl TypeError"

text \<open>
  \<^verbatim>\<open>for x in v\<close>: a list gives its elements, a dictionary its keys, a string its
  characters; \<^verbatim>\<open>None\<close>, booleans and integers are not iterable.
\<close>

fun py_iter :: "pyval \<Rightarrow> pyerr + pyval list" where
  "py_iter (PList xs) = Inr xs"
| "py_iter (PDict kvs) = Inr (map (\<lambda>kv. PStr (fst kv)) kvs)"
| "py_iter (PStr s) = Inr (map (\<lambda>c. PStr [c]) s)"
| "py_iter v = Inl TypeError"

subsection \<open>\<^verbatim>\<open>str.strip\<close>, \<^verbatim>\<open>str.split\<close> and \<^verbatim>\<open>int\<close>\<close>

definition py_strip :: "char \<Rightarrow> string \<Rightarrow> string" where
  "py_strip c s = rev (dropWhile (\<lambda>x. x = c) (rev (dropWhile (\<lambda>x. x = c) s)))"

text \<open>\<^verbatim>\<open>s.split(sep)\<close> for a one-character separator: empty pieces are kept.\<close>

fun py_split :: "char \<Rightarrow> string \<Rightarrow> string list" where
  "py_split sep [] = [[]]"
| "py_split sep (c # cs) =
     (if c = sep then [] # py_split sep cs
      else (case py_split sep cs of [] \<Rightarrow> [[c]] | p # ps \<Rightarrow> (c # p) # ps))"

text \<open>
  The whitespace \<^verbatim>\<open>int\<close> skips around an ASCII literal: tab, line feed, vertical tab,
  form feed, carriage return and space. The separators \<^verbatim>\<open>0x1C\<close> to \<^verbatim>\<open>0x1F\<close> are not
  skipped.
\<close>

definition is_space :: "char \<Rightarrow> bool" where
  "is_space c = (of_char c \<in> set [9, 10, 11, 12, 13, 32 :: nat])"

definition is_digit :: "char \<Rightarrow> bool" where
  "is_digit c = (48 \<le> (of_char c :: nat) \<and> (of_char c :: nat) \<le> 57)"

text \<open>
  The digits of a decimal literal, most significant first; single underscores may
  separate digits. \<open>None\<close> when the text is not such a literal.
\<close>

fun literal_digits :: "string \<Rightarrow> nat list option" where
  "literal_digits [] = None"
| "literal_digits [c] = (if is_digit c then Some [of_char c - 48] else None)"
| "literal_digits (c # d # cs) =
     (if is_digit c then
        (case literal_digits (if d = CHR ''_'' then cs else d # cs) of
           None \<Rightarrow> None
         | Some ds \<Rightarrow> Some ((of_char c - 48) # ds))
      else None)"

definition digits_value :: "nat list \<Rightarrow> nat" where
  "digits_value ds = foldl (\<lambda>acc d. 10 * acc + d) 0 ds"

text \<open>
  \<^verbatim>\<open>int(s)\<close> for a string: surrounding whitespace, one optional sign, a literal. A
  literal of more than 4300 digits is refused (the default limit of
  \<^verbatim>\<open>sys.set_int_max_str_digits\<close>).
\<close>

definition max_str_digits :: nat where
  "max_str_digits = 4300"

definition py_int_of_str :: "string \<Rightarrow> pyerr + int" where
  "py_int_of_str s =
     (let t = rev (dropWhile is_space (rev (dropWhile is_space s)));
          neg = (t \<noteq> [] \<and> hd t = CHR ''-'');
          body = (if t \<noteq> [] \<and> (hd t = CHR ''-'' \<or> hd t = CHR ''+'') then tl t else t)
      in case literal_digits body of
           None \<Rightarrow> Inl (ValueError (''invalid literal for int() with base 10: '' @ repr_str s))
         | Some ds \<Rightarrow>
             if length ds > max_str_digits
             then Inl (ValueError (''Exceeds the limit ('' @ str_nat max_str_digits
                    @ '' digits) for integer string conversion: value has ''
                    @ str_nat (length ds)
                    @ '' digits; use sys.set_int_max_str_digits() to increase the limit''))
             else Inr (if neg then - int (digits_value ds) else int (digits_value ds)))"

section \<open>The outside world\<close>

text \<open>
  An HTTP request as \<^verbatim>\<open>requests.get(url, headers=..., params=...)\<close> sends it, and the
  response as the program reads it: the status code, the body text, and the decoded JSON
  body (\<open>None\<close> when the body is not JSON, so that \<^verbatim>\<open>response.json()\<close> raises).
\<close>

record request =
  req_url :: string
  req_headers :: "(string \<times> string) list"
  req_params :: "(string \<times> pyval) list"

record response =
  status_code :: int
  text_body :: string
  json_body :: "pyval option"

text \<open>
  The run keeps a log of the exchanges so far, oldest first. The server is any function
  of the earlier exchanges and the request; \<^verbatim>\<open>requests.get\<close> may itself raise (no
  connection), which is the \<open>Inl\<close> answer.
\<close>

type_synonym exchange = "request \<times> (pyerr + response)"

type_synonym world = "exchange list \<Rightarrow> request \<Rightarrow> pyerr + response"

type_synonym 'a io = "exchange list \<Rightarrow> (pyerr + 'a) \<times> exchange list"

definition io_return :: "'a \<Rightarrow> 'a io" where
  "io_return x tr = (Inr x, tr)"

definition lift :: "pyerr + 'a \<Rightarrow> 'a io" where
  "lift v tr = (v, tr)"

definition io_bind :: "'a io \<Rightarrow> ('a \<Rightarrow> 'b io) \<Rightarrow> 'b io" where
  "io_bind m f tr = (case m tr of (Inl e, tr') \<Rightarrow> (Inl e, tr') | (Inr a, tr') \<Rightarrow> f a tr')"

definition requests_get :: "world \<Rightarrow> request \<Rightarrow> response io" where
  "requests_get w req tr = (w tr req, tr @ [(req, w tr req)])"

text \<open>\<^verbatim>\<open>response.raise_for_status()\<close> raises for the statuses 400 to 599.\<close>

definition raise_for_status :: "response \<Rightarrow> pyerr + unit" where
  "raise_for_status r =
     (if 400 \<le> status_code r \<and> status_code r < 600 then Inl (HTTPError (status_code r))
      else Inr ())"

definition response_json :: "response \<Rightarrow> pyerr + pyval" where
  "response_json r = (case json_body r of None \<Rightarrow> Inl JSONDecodeError | Some v \<Rightarrow> Inr v)"

text \<open>
  \<^verbatim>\<open>urllib.parse.urlparse\<close> is a library function: the model takes it as a parameter
  \<open>urlparse\<close> that returns the six components or raises.
\<close>

record parse_result =
  scheme :: string
  netloc :: string
  path :: string
  params :: string
  query :: string
  fragment :: string

type_synonym url_parser = "string \<Rightarrow> pyerr + parse_result"

text \<open>The process environment after \<^verbatim>\<open>load_dotenv()\<close>; \<^verbatim>\<open>os.getenv\<close> gives \<^verbatim>\<open>None\<close> for an unset name.\<close>

type_synonym environ = "string \<Rightarrow> string option"

definition os_getenv :: "environ \<Rightarrow> string \<Rightarrow> pyval" where
  "os_getenv env k = (case env k of None \<Rightarrow> PNone | Some v \<Rightarrow> PStr v)"

section \<open>\<^verbatim>\<open>GitHubRepoAnalyzer\<close>\<close>

record analyzer =
  repo_url :: string
  branch :: string
  headers :: "(string \<times> string) list"
  owner :: string
  repo :: string

text \<open>
  The methods keep their names without the leading underscore. \<^verbatim>\<open>_parse_repo_url\<close>:
  \<^verbatim>\<open>parts[0], parts[1]\<close> raises \<^verbatim>\<open>IndexError\<close> on a list with fewer than two pieces.
\<close>

definition parse_repo_url :: "url_parser \<Rightarrow> string \<Rightarrow> pyerr + string \<times> string" where
  "parse_repo_url urlparse url =
     (case urlparse url of
        Inl e \<Rightarrow> Inl e
      | Inr u \<Rightarrow>
          (let path = py_strip CHR ''/'' (path u);
               parts = py_split CHR ''/'' path
           in case parts of
                p0 # p1 # _ \<Rightarrow> Inr (p0, p1)
              | _ \<Rightarrow> Inl IndexError))"

definition GitHubRepoAnalyzer_init ::
    "environ \<Rightarrow> url_parser \<Rightarrow> string \<Rightarrow> string \<Rightarrow> pyerr + analyzer" where
  "GitHubRepoAnalyzer_init env urlparse url branch_name =
     (case parse_repo_url urlparse url of
        Inl e \<Rightarrow> Inl e
      | Inr (own, rep) \<Rightarrow>
          Inr \<lparr> repo_url = url,
                branch = branch_name,
                headers = [(''Authorization'', ''Bearer '' @ py_str (os_getenv env ''GITHUB_TOKEN'')),
                           (''Accept'', ''application/vnd.github+json'')],
                owner = own,
                repo = rep \<rparr>)"

text \<open>
  The requests the three methods build, then \<^verbatim>\<open>_get_commit_details\<close> and
  \<^verbatim>\<open>_get_commit_diff\<close>. The diff headers are \<^verbatim>\<open>{**self.headers, "Accept": ...}\<close>: the
  entry for \<^verbatim>\<open>Accept\<close> is replaced in place.
\<close>

definition list_request :: "analyzer \<Rightarrow> int \<Rightarrow> request" where
  "list_request self max_commits =
     \<lparr> req_url = ''https://api.github.com/repos/'' @ owner self @ ''/'' @ repo self @ ''/commits'',
       req_headers = headers self,
       req_params = [(''per_page'', PInt max_commits), (''sha'', PStr (branch self))] \<rparr>"

definition details_request :: "analyzer \<Rightarrow> pyval \<Rightarrow> request" where
  "details_request self sha =
     \<lparr> req_url = ''https://api.github.com/repos/'' @ owner self @ ''/'' @ repo self
                   @ ''/commits/'' @ py_str sha,
       req_headers = headers self,
       req_params = [] \<rparr>"

definition diff_request :: "analyzer \<Rightarrow> pyval \<Rightarrow> request" where
  "diff_request self sha =
     \<lparr> req_url = ''https://api.github.com/repos/'' @ owner self @ ''/'' @ repo self
                   @ ''/commits/'' @ py_str sha,
       req_headers = AList.update ''Accept'' ''application/vnd.github.v3.diff'' (headers self),
       req_params = [] \<rparr>"

definition get_commit_details :: "world \<Rightarrow> analyzer \<Rightarrow> pyval \<Rightarrow> pyval io" where
  "get_commit_details w self sha =
     io_bind (requests_get w (details_request self sha)) (\<lambda>response.
     io_bind (lift (raise_for_status response)) (\<lambda>_.
     lift (response_json response)))"

definition get_commit_diff :: "world \<Rightarrow> analyzer \<Rightarrow> pyval \<Rightarrow> pyval io" where
  "get_commit_diff w self sha =
     io_bind (requests_get w (diff_request self sha)) (\<lambda>response.
     io_bind (lift (raise_for_status response)) (\<lambda>_.
     io_return (PStr (text_body response))))"

text \<open>Chained subscripts \<^verbatim>\<open>v[k1][k2]...\<close>, left to right.\<close>

fun getitems :: "pyval \<Rightarrow> string list \<Rightarrow> pyerr + pyval" where
  "getitems v [] = Inr v"
| "getitems v (k # ks) = (case py_getitem v k of Inl e \<Rightarrow> Inl e | Inr u \<Rightarrow> getitems u ks)"

text \<open>The element of the comprehension of line 40, and the comprehension.\<close>

definition format_file :: "pyval \<Rightarrow> pyerr + pyval" where
  "format_file f =
     (case py_getitem f ''filename'' of
        Inl e \<Rightarrow> Inl e
      | Inr name \<Rightarrow>
          (case py_getitem f ''changes'' of
             Inl e \<Rightarrow> Inl e
           | Inr changes \<Rightarrow> Inr (PStr (py_str name @ '' ('' @ py_str changes @ '' changes)''))))"

fun format_files :: "pyval list \<Rightarrow> pyerr + pyval list" where
  "format_files [] = Inr []"
| "format_files (f # fs) =
     (case format_file f of
        Inl e \<Rightarrow> Inl e
      | Inr s \<Rightarrow> (case format_files fs of Inl e \<Rightarrow> Inl e | Inr ss \<Rightarrow> Inr (s # ss)))"

text \<open>
  The body of the loop of \<^verbatim>\<open>get_commit_history\<close>, in the order Python evaluates it:
  the details call, the formatted files, the fields read from the details, and the diff
  call last.
\<close>

definition commit_record :: "world \<Rightarrow> analyzer \<Rightarrow> pyval \<Rightarrow> pyval io" where
  "commit_record w self commit =
     io_bind (lift (py_getitem commit ''sha'')) (\<lambda>sha.
     io_bind (get_commit_details w self sha) (\<lambda>commit_details.
     io_bind (lift (py_getitem commit_details ''files'')) (\<lambda>files.
     io_bind (lift (py_iter files)) (\<lambda>fs.
     io_bind (lift (format_files fs)) (\<lambda>formatted_files.
     io_bind (lift (getitems commit_details [''commit'', ''message''])) (\<lambda>message.
     io_bind (lift (getitems commit_details [''commit'', ''author'', ''name''])) (\<lambda>author.
     io_bind (lift (getitems commit_details [''commit'', ''author'', ''date''])) (\<lambda>date.
     io_bind (get_commit_diff w self sha) (\<lambda>diff.
     io_return (PDict [(''sha'', sha), (''message'', message), (''author'', author),
                       (''date'', date), (''files'', PList formatted_files),
                       (''diff'', diff)]))))))))))"

fun history_loop :: "world \<Rightarrow> analyzer \<Rightarrow> pyval list \<Rightarrow> pyval list \<Rightarrow> pyval list io" where
  "history_loop w self [] commits = io_return commits"
| "history_loop w self (commit # rest) commits =
     io_bind (commit_record w self commit) (\<lambda>r. history_loop w self rest (commits @ [r]))"

definition get_commit_history :: "world \<Rightarrow> analyzer \<Rightarrow> int \<Rightarrow> pyval list io" where
  "get_commit_history w self max_commits =
     io_bind (requests_get w (list_request self max_commits)) (\<lambda>response.
     io_bind (lift (raise_for_status response)) (\<lambda>_.
     io_bind (lift (response_json response)) (\<lambda>body.
     io_bind (lift (py_iter body)) (\<lambda>entries.
     history_loop w self entries []))))"

section \<open>\<^verbatim>\<open>generate_release_notes\<close>\<close>

text \<open>
  The text-generation model is a parameter: a function from the call (model name,
  temperature, prompt) to the returned text, or to the exception the call raises. The
  function returns the result together with the calls it made. Building the client
  (line 76) and \<^verbatim>\<open>llm.invoke\<close> (line 97) are one call of the parameter.
\<close>

record llm_call =
  model :: string
  temperature :: rat
  prompt :: string

type_synonym llm = "llm_call \<Rightarrow> pyerr + string"

definition nl :: string where
  "nl = [CHR 0x0A]"

text \<open>The f-string of lines 78 to 95, before and after the field \<^verbatim>\<open>{commits}\<close>.\<close>

definition prompt_head :: string where
  "prompt_head =
     ''Analyze these GitHub commits from a specific branch and generate detailed release notes. '' @ nl @
     ''    Focus on:'' @ nl @
     ''    - Code changes in diffs'' @ nl @
     ''    - File modification types (added/modified/deleted)'' @ nl @
     ''    - Commit message patterns'' @ nl @
     ''    - Impact analysis of changes'' @ nl @
     nl @
     ''    Structure:'' @ nl @
     ''    1. Overview of changes'' @ nl @
     ''    2. Technical breakdown by category'' @ nl @
     ''    3. Notable code modifications'' @ nl @
     ''    4. Files changed summary'' @ nl @
     nl @
     ''    Commits to analyze:'' @ nl @
     ''    ''"

definition prompt_tail :: string where
  "prompt_tail =
     nl @
     ''    '' @ nl @
     ''    Output in markdown with technical depth. Highlight significant code changes.'' @ nl @
     ''    ''"

definition generate_release_notes :: "llm \<Rightarrow> pyval list \<Rightarrow> (pyerr + string) \<times> llm_call list" where
  "generate_release_notes llm_invoke commits =
     (let call = \<lparr> model = ''gemini-1.5-flash-latest'',
                    temperature = 2 / 10,
                    prompt = prompt_head @ py_str (PList commits) @ prompt_tail \<rparr>
      in (llm_invoke call, [call]))"

section \<open>The script\<close>

text \<open>
  What a run of the script leaves behind: the release notes (written to the file and
  printed) or the exception that ended the run, the HTTP exchanges and the model calls.
  Console output is not part of the model.
\<close>

record run =
  outcome :: "pyerr + string"
  http_log :: "exchange list"
  llm_calls :: "llm_call list"

text \<open>Lines 109 to 132, with the three configuration values in hand.\<close>

definition main_body ::
    "environ \<Rightarrow> url_parser \<Rightarrow> world \<Rightarrow> llm \<Rightarrow> string \<Rightarrow> string \<Rightarrow> int \<Rightarrow> run" where
  "main_body env urlparse w llm_invoke REPO_URL BRANCH_NAME MAX_COMMITS =
     (case GitHubRepoAnalyzer_init env urlparse REPO_URL BRANCH_NAME of
        Inl e \<Rightarrow> \<lparr> outcome = Inl e, http_log = [], llm_calls = [] \<rparr>
      | Inr analyzer \<Rightarrow>
          (case get_commit_history w analyzer MAX_COMMITS [] of
             (Inl e, tr) \<Rightarrow> \<lparr> outcome = Inl e, http_log = tr, llm_calls = [] \<rparr>
           | (Inr commits, tr) \<Rightarrow>
               (case generate_release_notes llm_invoke commits of
                  (release_notes, calls) \<Rightarrow>
                    \<lparr> outcome = release_notes, http_log = tr, llm_calls = calls \<rparr>)))"

text \<open>
  Lines 100 to 107. \<^verbatim>\<open>int(os.getenv("MAX_COMMITS", 2))\<close> is evaluated before the check
  of the two required values; \<^verbatim>\<open>all([...])\<close> fails on \<^verbatim>\<open>None\<close> and on the empty string.
\<close>

definition missing_message :: string where
  "missing_message = ''Missing required environment variables: REPO_URL, BRANCH_NAME''"

definition main :: "environ \<Rightarrow> url_parser \<Rightarrow> world \<Rightarrow> llm \<Rightarrow> run" where
  "main env urlparse w llm_invoke =
     (case (case env ''MAX_COMMITS'' of None \<Rightarrow> Inr 2 | Some s \<Rightarrow> py_int_of_str s) of
        Inl e \<Rightarrow> \<lparr> outcome = Inl e, http_log = [], llm_calls = [] \<rparr>
      | Inr MAX_COMMITS \<Rightarrow>
          (case (env ''REPO_URL'', env ''BRANCH_NAME'') of
             (Some REPO_URL, Some BRANCH_NAME) \<Rightarrow>
               if REPO_URL = [] \<or> BRANCH_NAME = []
               then \<lparr> outcome = Inl (ValueError missing_message), http_log = [], llm_calls = [] \<rparr>
               else main_body env urlparse w llm_invoke REPO_URL BRANCH_NAME MAX_COMMITS
           | _ \<Rightarrow> \<lparr> outcome = Inl (ValueError missing_message), http_log = [], llm_calls = [] \<rparr>))"

section \<open>Fixtures\<close>

text \<open>
  A parser for URLs of the form \<^verbatim>\<open>https://github.com/<path>\<close>, a small server and a
  model double. The server holds the commits \<open>available\<close>, newest first, returns at
  most \<open>cap\<close> of them in one page, answers a details request with one changed file and
  a diff request with the status \<open>diff_status\<close>.
\<close>

definition fixture_urlparse :: url_parser where
  "fixture_urlparse url =
     Inr \<lparr> scheme = ''https'', netloc = ''github.com'', path = drop 18 url,
           params = [], query = [], fragment = [] \<rparr>"

definition fixture_details :: "string \<Rightarrow> pyval" where
  "fixture_details s =
     PDict [(''sha'', PStr s),
            (''commit'', PDict [(''message'', PStr (''Update '' @ s)),
                                (''author'', PDict [(''name'', PStr ''Ram''),
                                                    (''date'', PStr ''2024-01-01T00:00:00Z'')])]),
            (''files'', PList [PDict [(''filename'', PStr ''main.py''),
                                      (''status'', PStr ''modified''),
                                      (''changes'', PInt 3)]])]"

definition paged_world :: "nat \<Rightarrow> string list \<Rightarrow> int \<Rightarrow> world" where
  "paged_world cap available diff_status tr req =
     (case map_of (req_params req) ''per_page'' of
        Some (PInt n) \<Rightarrow>
          Inr \<lparr> status_code = 200, text_body = [],
                json_body = Some (PList (map (\<lambda>s. PDict [(''sha'', PStr s)])
                                             (take (min cap (nat n)) available))) \<rparr>
      | _ \<Rightarrow>
          if map_of (req_headers req) ''Accept'' = Some ''application/vnd.github.v3.diff''
          then Inr \<lparr> status_code = diff_status, text_body = ''+a'' @ nl @ ''-b'' @ nl @ '' c'',
                     json_body = None \<rparr>
          else Inr \<lparr> status_code = 200, text_body = [],
                     json_body = Some (fixture_details (last (py_split CHR ''/'' (req_url req)))) \<rparr>)"

text \<open>The same server, with the status of its answer to the list call replaced.\<close>

definition list_status_world :: "int \<Rightarrow> world \<Rightarrow> world" where
  "list_status_world c w tr req =
     (if map_of (req_params req) ''per_page'' = None then w tr req
      else (case w tr req of Inl e \<Rightarrow> Inl e | Inr r \<Rightarrow> Inr (r\<lparr> status_code := c \<rparr>)))"

definition fixture_env :: environ where
  "fixture_env = [''REPO_URL'' \<mapsto> ''https://github.com/Ramc26/RN_AI'',
                  ''BRANCH_NAME'' \<mapsto> ''main'',
                  ''GITHUB_TOKEN'' \<mapsto> ''ghp_x'']"

definition fixture_self :: analyzer where
  "fixture_self =
     \<lparr> repo_url = ''https://github.com/Ramc26/RN_AI'',
       branch = ''main'',
       headers = [(''Authorization'', ''Bearer ghp_x''), (''Accept'', ''application/vnd.github+json'')],
       owner = ''Ramc26'',
       repo = ''RN_AI'' \<rparr>"

definition fixture_record :: "string \<Rightarrow> pyval" where
  "fixture_record s =
     PDict [(''sha'', PStr s), (''message'', PStr (''Update '' @ s)), (''author'', PStr ''Ram''),
            (''date'', PStr ''2024-01-01T00:00:00Z''),
            (''files'', PList [PStr ''main.py (3 changes)'']),
            (''diff'', PStr (''+a'' @ nl @ ''-b'' @ nl @ '' c''))]"

definition fixture_llm :: llm where
  "fixture_llm call = Inr ''# Release notes''"

definition fixture_urlparse_ext :: url_parser where
  "fixture_urlparse_ext url =
     (if url = ''http://example.org/Ramc26/RN_AI/issues?x=1#top''
      then Inr \<lparr> scheme = ''http'', netloc = ''example.org'', path = ''/Ramc26/RN_AI/issues'',
                 params = [], query = ''x=1'', fragment = ''top'' \<rparr>
      else fixture_urlparse url)"

definition fixture_env_no_token :: environ where
  "fixture_env_no_token = [''REPO_URL'' \<mapsto> ''https://github.com/Ramc26/RN_AI'',
                           ''BRANCH_NAME'' \<mapsto> ''main'']"

section \<open>Observations on a run\<close>

text \<open>The statuses for which \<^verbatim>\<open>raise_for_status\<close> raises, and the status of an exchange.\<close>

definition bad_status :: "response \<Rightarrow> bool" where
  "bad_status r = (400 \<le> status_code r \<and> status_code r < 600)"

definition exchange_status :: "exchange \<Rightarrow> int option" where
  "exchange_status ex = (case snd ex of Inl _ \<Rightarrow> None | Inr r \<Rightarrow> Some (status_code r))"

text \<open>
  The commit entries of the list call's response, read from the first exchange of a log,
  the sha of an entry (\<^verbatim>\<open>None\<close> when the entry has none: such a run raises), and the
  two requests the loop body sends for an entry.
\<close>

definition list_entries :: "exchange list \<Rightarrow> pyval list" where
  "list_entries tr =
     (case tr of
        [] \<Rightarrow> []
      | ex # _ \<Rightarrow>
          (case snd ex of
             Inl _ \<Rightarrow> []
           | Inr r \<Rightarrow>
               (case response_json r of
                  Inl _ \<Rightarrow> []
                | Inr body \<Rightarrow> (case py_iter body of Inl _ \<Rightarrow> [] | Inr entries \<Rightarrow> entries))))"

definition entry_sha :: "pyval \<Rightarrow> pyval" where
  "entry_sha c = (case py_getitem c ''sha'' of Inl _ \<Rightarrow> PNone | Inr s \<Rightarrow> s)"

definition commit_requests :: "analyzer \<Rightarrow> pyval \<Rightarrow> request list" where
  "commit_requests self c = [details_request self (entry_sha c), diff_request self (entry_sha c)]"

text \<open>
  The path segments of a URL path that are not empty, and the values of a configuration
  name that \<^verbatim>\<open>all([...])\<close> rejects.
\<close>

definition nonempty_segments :: "string \<Rightarrow> string list" where
  "nonempty_segments p = filter (\<lambda>s. s \<noteq> []) (py_split CHR ''/'' p)"

definition missing :: "string option \<Rightarrow> bool" where
  "missing v = (v = None \<or> v = Some [])"

section \<open>Predicates for the proofs\<close>

text \<open>
  What one successful pass through the loop body leaves: the record \<open>r\<close> built for the
  entry \<open>commit\<close> and the two exchanges \<open>e1\<close> (details) and \<open>e2\<close> (diff); and the same
  for the whole loop.
\<close>

definition step_spec :: "analyzer \<Rightarrow> pyval \<Rightarrow> pyval \<Rightarrow> exchange \<Rightarrow> exchange \<Rightarrow> bool" where
  "step_spec self commit r e1 e2 =
     (\<exists>sha dr fr d files fs lines message author date.
        py_getitem commit ''sha'' = Inr sha
      \<and> e1 = (details_request self sha, Inr dr) \<and> \<not> bad_status dr \<and> json_body dr = Some d
      \<and> e2 = (diff_request self sha, Inr fr) \<and> \<not> bad_status fr
      \<and> py_getitem d ''files'' = Inr files \<and> py_iter files = Inr fs
      \<and> format_files fs = Inr lines
      \<and> getitems d [''commit'', ''message''] = Inr message
      \<and> getitems d [''commit'', ''author'', ''name''] = Inr author
      \<and> getitems d [''commit'', ''author'', ''date''] = Inr date
      \<and> r = PDict [(''sha'', sha), (''message'', message), (''author'', author),
                    (''date'', date), (''files'', PList lines), (''diff'', PStr (text_body fr))])"

fun loop_spec :: "analyzer \<Rightarrow> pyval list \<Rightarrow> pyval list \<Rightarrow> exchange list \<Rightarrow> bool" where
  "loop_spec self [] [] [] = True"
| "loop_spec self (c # cs) (r # rs) (e1 # e2 # es) = (step_spec self c r e1 e2 \<and> loop_spec self cs rs es)"
| "loop_spec self _ _ _ = False"

text \<open>
  A computation is fail-fast when it only appends to the log and, whenever one of the
  exchanges it appends has a status from 400 to 599, it ends with that \<^verbatim>\<open>HTTPError\<close>.
  \<open>sends Q\<close> says that every request it appends satisfies \<open>Q\<close>.
\<close>

definition fail_fast :: "'a io \<Rightarrow> bool" where
  "fail_fast m =
     (\<forall>tr. \<exists>new. snd (m tr) = tr @ new
        \<and> (\<forall>ex\<in>set new. \<forall>c. exchange_status ex = Some c \<longrightarrow> 400 \<le> c \<longrightarrow> c < 600
              \<longrightarrow> fst (m tr) = Inl (HTTPError c)))"

definition sends :: "(request \<Rightarrow> bool) \<Rightarrow> 'a io \<Rightarrow> bool" where
  "sends Q m = (\<forall>tr. \<exists>new. snd (m tr) = tr @ new \<and> (\<forall>ex\<in>set new. Q (fst ex)))"

text \<open>\<^verbatim>\<open>requests.get\<close> followed by \<^verbatim>\<open>raise_for_status\<close>, as all three calls do.\<close>

definition checked_get :: "world \<Rightarrow> request \<Rightarrow> response io" where
  "checked_get w req =
     io_bind (requests_get w req) (\<lambda>response.
     io_bind (lift (raise_for_status response)) (\<lambda>_. io_return response))"

definition authorized :: "analyzer \<Rightarrow> request \<Rightarrow> bool" where
  "authorized self req =
     (map_of (req_headers req) ''Authorization'' = map_of (headers self) ''Authorization'')"


section \<open>Successful runs\<close>

lemma io_bind_Inr:
  "io_bind m f tr = (Inr b, tr'') \<longleftrightarrow> (\<exists>a tr'. m tr = (Inr a, tr') \<and> f a tr' = (Inr b, tr''))"
  by (auto simp: io_bind_def split: prod.splits sum.splits)

lemma lift_Inr: "lift v tr = (Inr a, tr') \<longleftrightarrow> v = Inr a \<and> tr' = tr"
  by (auto simp: lift_def)

lemma io_return_Inr: "io_return x tr = (Inr a, tr') \<longleftrightarrow> a = x \<and> tr' = tr"
  by (auto simp: io_return_def)

lemma requests_get_Inr:
  "requests_get w req tr = (Inr r, tr') \<longleftrightarrow> w tr req = Inr r \<and> tr' = tr @ [(req, Inr r)]"
  by (auto simp: requests_get_def)

lemma raise_for_status_Inr: "raise_for_status r = Inr u \<longleftrightarrow> \<not> bad_status r"
  by (simp add: raise_for_status_def bad_status_def)

lemma response_json_Inr: "response_json r = Inr d \<longleftrightarrow> json_body r = Some d"
  by (simp add: response_json_def split: option.splits)

lemma get_commit_details_Inr:
  "get_commit_details w self sha tr = (Inr d, tr') \<longleftrightarrow>
     (\<exists>r. w tr (details_request self sha) = Inr r \<and> \<not> bad_status r \<and> json_body r = Some d
          \<and> tr' = tr @ [(details_request self sha, Inr r)])"
  by (auto simp: get_commit_details_def io_bind_Inr lift_Inr requests_get_Inr
        raise_for_status_Inr response_json_Inr)

lemma get_commit_diff_Inr:
  "get_commit_diff w self sha tr = (Inr d, tr') \<longleftrightarrow>
     (\<exists>r. w tr (diff_request self sha) = Inr r \<and> \<not> bad_status r \<and> d = PStr (text_body r)
          \<and> tr' = tr @ [(diff_request self sha, Inr r)])"
  by (auto simp: get_commit_diff_def io_bind_Inr lift_Inr requests_get_Inr
        raise_for_status_Inr io_return_Inr)

lemma commit_record_Inr:
  assumes "commit_record w self commit tr = (Inr r, tr')"
  shows "\<exists>e1 e2. tr' = tr @ [e1, e2] \<and> step_spec self commit r e1 e2"
  using assms unfolding commit_record_def step_spec_def
  by (auto simp: io_bind_Inr lift_Inr io_return_Inr get_commit_details_Inr get_commit_diff_Inr)

lemma history_loop_Inr:
  "history_loop w self entries commits tr = (Inr recs, tr') \<Longrightarrow>
     \<exists>news exs. recs = commits @ news \<and> tr' = tr @ exs \<and> loop_spec self entries news exs"
proof (induction entries arbitrary: commits tr)
  case Nil
  then show ?case by (simp add: io_return_Inr)
next
  case (Cons c cs)
  from Cons.prems obtain r tr1 where
    r: "commit_record w self c tr = (Inr r, tr1)" and
    rest: "history_loop w self cs (commits @ [r]) tr1 = (Inr recs, tr')"
    by (auto simp: io_bind_Inr)
  from commit_record_Inr[OF r] obtain e1 e2 where
    e: "tr1 = tr @ [e1, e2]" "step_spec self c r e1 e2" by blast
  from Cons.IH[OF rest] obtain news exs where
    n: "recs = (commits @ [r]) @ news" "tr' = tr1 @ exs" "loop_spec self cs news exs" by blast
  have "recs = commits @ (r # news)" using n by simp
  moreover have "tr' = tr @ (e1 # e2 # exs)" using n e by simp
  moreover have "loop_spec self (c # cs) (r # news) (e1 # e2 # exs)" using n e by simp
  ultimately show ?case by blast
qed

lemma loop_spec_length:
  "loop_spec self entries news exs \<Longrightarrow> length news = length entries \<and> length exs = 2 * length entries"
  by (induction self entries news exs rule: loop_spec.induct) auto

lemma loop_spec_nth:
  "loop_spec self entries news exs \<Longrightarrow> i < length entries \<Longrightarrow>
     step_spec self (entries ! i) (news ! i) (exs ! (2 * i)) (exs ! (2 * i + 1))"
proof (induction self entries news exs arbitrary: i rule: loop_spec.induct)
  case (2 self c cs r rs e1 e2 es)
  then show ?case by (cases i) auto
qed auto

lemma get_commit_history_Inr:
  assumes "get_commit_history w self n [] = (Inr recs, tr)"
  shows "\<exists>r body entries exs.
           \<not> bad_status r \<and> json_body r = Some body \<and> py_iter body = Inr entries
         \<and> tr = (list_request self n, Inr r) # exs \<and> loop_spec self entries recs exs"
proof -
  from assms obtain r body entries tr1 where
    a: "w [] (list_request self n) = Inr r" "\<not> bad_status r" "json_body r = Some body"
       "py_iter body = Inr entries" "tr1 = [(list_request self n, Inr r)]"
       "history_loop w self entries [] tr1 = (Inr recs, tr)"
    unfolding get_commit_history_def
    by (auto simp: io_bind_Inr lift_Inr requests_get_Inr raise_for_status_Inr response_json_Inr)
  from history_loop_Inr[OF a(6)] a(5) obtain exs where
    "tr = (list_request self n, Inr r) # exs" "loop_spec self entries recs exs" by auto
  with a show ?thesis by blast
qed

lemma loop_spec_shas:
  "loop_spec self entries news exs \<Longrightarrow>
     map (\<lambda>r. py_getitem r ''sha'') news = map (\<lambda>c. py_getitem c ''sha'') entries"
  by (induction self entries news exs rule: loop_spec.induct) (auto simp: step_spec_def)

lemma loop_spec_requests:
  "loop_spec self entries news exs \<Longrightarrow>
     map fst exs = concat (map (commit_requests self) entries)"
  by (induction self entries news exs rule: loop_spec.induct)
     (auto simp: step_spec_def commit_requests_def entry_sha_def)

lemma run_split:
  assumes "fst (get_commit_history w self n []) = Inr recs"
  shows "\<exists>r body exs.
           \<not> bad_status r \<and> json_body r = Some body
         \<and> py_iter body = Inr (list_entries (snd (get_commit_history w self n [])))
         \<and> snd (get_commit_history w self n []) = (list_request self n, Inr r) # exs
         \<and> loop_spec self (list_entries (snd (get_commit_history w self n []))) recs exs"
proof -
  have "get_commit_history w self n [] = (Inr recs, snd (get_commit_history w self n []))"
    using assms by (simp add: prod_eq_iff)
  from get_commit_history_Inr[OF this] obtain r body entries exs where
    a: "\<not> bad_status r" "json_body r = Some body" "py_iter body = Inr entries"
       "snd (get_commit_history w self n []) = (list_request self n, Inr r) # exs"
       "loop_spec self entries recs exs" by blast
  have "list_entries (snd (get_commit_history w self n [])) = entries"
    using a by (simp add: list_entries_def response_json_def)
  with a show ?thesis by blast
qed

text \<open>
  Claim C1, as amended. A successful \<^verbatim>\<open>get_commit_history(n)\<close> sends \<open>n\<close> as
  \<^verbatim>\<open>per_page\<close> and returns exactly one record per commit entry of the list call's
  response, in the order of the response, each with the sha of its entry. The function
  does not cut the response down to \<open>n\<close> itself.
\<close>

theorem history_one_record_per_entry:
  assumes "fst (get_commit_history w self n []) = Inr recs"
  shows "map_of (req_params (fst (hd (snd (get_commit_history w self n []))))) ''per_page''
           = Some (PInt n)
       \<and> length recs = length (list_entries (snd (get_commit_history w self n [])))
       \<and> map (\<lambda>r. py_getitem r ''sha'') recs
         = map (\<lambda>c. py_getitem c ''sha'') (list_entries (snd (get_commit_history w self n [])))"
proof -
  from run_split[OF assms] obtain r exs where
    a: "snd (get_commit_history w self n []) = (list_request self n, Inr r) # exs"
       "loop_spec self (list_entries (snd (get_commit_history w self n []))) recs exs" by blast
  have "map_of (req_params (fst (hd (snd (get_commit_history w self n []))))) ''per_page''
           = Some (PInt n)"
    using a(1) by (simp add: list_request_def)
  then show ?thesis using a(2) loop_spec_length loop_spec_shas by blast
qed

text \<open>
  Claim C5, as amended. A successful \<^verbatim>\<open>get_commit_history(n)\<close> sends the list request
  and then, for each commit entry of the list call's response in order, one details
  request and one diff request: \<open>1 + 2 * k\<close> requests for \<open>k\<close> entries.
\<close>

theorem history_requests:
  assumes "fst (get_commit_history w self n []) = Inr recs"
  shows "map fst (snd (get_commit_history w self n []))
           = list_request self n
             # concat (map (commit_requests self) (list_entries (snd (get_commit_history w self n []))))
       \<and> length (snd (get_commit_history w self n []))
           = 1 + 2 * length (list_entries (snd (get_commit_history w self n [])))"
proof -
  from run_split[OF assms] obtain r exs where
    a: "snd (get_commit_history w self n []) = (list_request self n, Inr r) # exs"
       "loop_spec self (list_entries (snd (get_commit_history w self n []))) recs exs" by blast
  from loop_spec_requests[OF a(2)] loop_spec_length[OF a(2)] a(1)
  show ?thesis by simp
qed

lemma format_files_Inr:
  "format_files fs = Inr lines \<Longrightarrow>
     length lines = length fs \<and> (\<forall>j<length fs. format_file (fs ! j) = Inr (lines ! j))"
proof (induction fs arbitrary: lines)
  case Nil
  then show ?case by simp
next
  case (Cons f fs)
  then show ?case
    by (auto split: sum.splits simp: nth_Cons split: nat.splits)
qed

lemma format_file_Inr:
  "format_file f = Inr s \<Longrightarrow>
     \<exists>name changes. py_getitem f ''filename'' = Inr name \<and> py_getitem f ''changes'' = Inr changes
        \<and> s = PStr (py_str name @ '' ('' @ py_str changes @ '' changes)'')"
  by (auto simp: format_file_def split: sum.splits)

text \<open>
  Claim C2. In a successful run the \<^verbatim>\<open>files\<close> field of the \<open>i\<close>-th record is a list with
  one string per file of the \<open>i\<close>-th details response (exchange \<open>1 + 2 * i\<close> of the
  log), in the same order, each \<^verbatim>\<open><filename> (<changes> changes)\<close> built from that file's
  \<^verbatim>\<open>filename\<close> and \<^verbatim>\<open>changes\<close>.
\<close>

theorem files_formatted:
  assumes "fst (get_commit_history w self n []) = Inr recs" and "i < length recs"
  shows "\<exists>dr d files fs lines.
           snd (snd (get_commit_history w self n []) ! (1 + 2 * i)) = Inr dr
         \<and> json_body dr = Some d \<and> py_getitem d ''files'' = Inr files \<and> py_iter files = Inr fs
         \<and> py_getitem (recs ! i) ''files'' = Inr (PList lines)
         \<and> length lines = length fs
         \<and> (\<forall>j<length fs. \<exists>name changes.
                py_getitem (fs ! j) ''filename'' = Inr name
              \<and> py_getitem (fs ! j) ''changes'' = Inr changes
              \<and> lines ! j = PStr (py_str name @ '' ('' @ py_str changes @ '' changes)''))"
proof -
  from run_split[OF assms(1)] obtain r exs where
    a: "snd (get_commit_history w self n []) = (list_request self n, Inr r) # exs"
       "loop_spec self (list_entries (snd (get_commit_history w self n []))) recs exs" by blast
  have len: "length recs = length (list_entries (snd (get_commit_history w self n [])))"
    using loop_spec_length[OF a(2)] by simp
  from loop_spec_nth[OF a(2), of i] assms(2) len
  have "step_spec self (list_entries (snd (get_commit_history w self n [])) ! i) (recs ! i)
          (exs ! (2 * i)) (exs ! (2 * i + 1))" by simp
  then obtain sha dr d files fs lines where
    s: "exs ! (2 * i) = (details_request self sha, Inr dr)" "json_body dr = Some d"
       "py_getitem d ''files'' = Inr files" "py_iter files = Inr fs"
       "format_files fs = Inr lines" "py_getitem (recs ! i) ''files'' = Inr (PList lines)"
    unfolding step_spec_def by auto
  have e: "snd (snd (get_commit_history w self n []) ! (1 + 2 * i)) = Inr dr"
    using a(1) s(1) by simp
  from format_files_Inr[OF s(5)] format_file_Inr
  have f: "length lines = length fs"
    "\<forall>j<length fs. \<exists>name changes.
                py_getitem (fs ! j) ''filename'' = Inr name
              \<and> py_getitem (fs ! j) ''changes'' = Inr changes
              \<and> lines ! j = PStr (py_str name @ '' ('' @ py_str changes @ '' changes)'')"
    by blast+
  from e s(2,3,4,6) f show ?thesis by blast
qed

section \<open>Failing requests\<close>

lemma fail_fast_lift: "fail_fast (lift v)"
  by (simp add: fail_fast_def lift_def)

lemma fail_fast_return: "fail_fast (io_return x)"
  by (simp add: fail_fast_def io_return_def)

lemma fail_fast_bind:
  assumes m: "fail_fast m" and f: "\<And>a. fail_fast (f a)"
  shows "fail_fast (io_bind m f)"
  unfolding fail_fast_def
proof
  fix tr
  from m obtain new1 where
    n1: "snd (m tr) = tr @ new1"
        "\<forall>ex\<in>set new1. \<forall>c. exchange_status ex = Some c \<longrightarrow> 400 \<le> c \<longrightarrow> c < 600
              \<longrightarrow> fst (m tr) = Inl (HTTPError c)"
    unfolding fail_fast_def by blast
  show "\<exists>new. snd (io_bind m f tr) = tr @ new
        \<and> (\<forall>ex\<in>set new. \<forall>c. exchange_status ex = Some c \<longrightarrow> 400 \<le> c \<longrightarrow> c < 600
              \<longrightarrow> fst (io_bind m f tr) = Inl (HTTPError c))"
  proof (cases "fst (m tr)")
    case (Inl e)
    then have "m tr = (Inl e, tr @ new1)"
      using n1(1) by (simp add: prod_eq_iff)
    then have "io_bind m f tr = (Inl e, tr @ new1)"
      by (simp add: io_bind_def)
    then show ?thesis using n1(2) Inl by auto
  next
    case (Inr a)
    then have "m tr = (Inr a, tr @ new1)"
      using n1(1) by (simp add: prod_eq_iff)
    then have b: "io_bind m f tr = f a (tr @ new1)"
      by (simp add: io_bind_def)
    from f[of a] obtain new2 where
      n2: "snd (f a (tr @ new1)) = (tr @ new1) @ new2"
          "\<forall>ex\<in>set new2. \<forall>c. exchange_status ex = Some c \<longrightarrow> 400 \<le> c \<longrightarrow> c < 600
              \<longrightarrow> fst (f a (tr @ new1)) = Inl (HTTPError c)"
      unfolding fail_fast_def by blast
    have clean: "\<forall>ex\<in>set new1. \<forall>c. exchange_status ex = Some c \<longrightarrow> \<not> (400 \<le> c \<and> c < 600)"
      using n1(2) Inr by auto
    have "snd (io_bind m f tr) = tr @ (new1 @ new2)" using b n2(1) by simp
    moreover have "\<forall>ex\<in>set (new1 @ new2). \<forall>c. exchange_status ex = Some c \<longrightarrow> 400 \<le> c \<longrightarrow> c < 600
              \<longrightarrow> fst (io_bind m f tr) = Inl (HTTPError c)"
      using b n2(2) clean by auto
    ultimately show ?thesis by blast
  qed
qed

lemma checked_get_bind:
  "io_bind (requests_get w req) (\<lambda>response. io_bind (lift (raise_for_status response)) (\<lambda>_. g response))
     = io_bind (checked_get w req) g"
  by (rule ext)
     (simp add: checked_get_def io_bind_def requests_get_def lift_def io_return_def
        split: sum.splits prod.splits)

lemma fail_fast_checked_get: "fail_fast (checked_get w req)"
  unfolding fail_fast_def
proof
  fix tr
  show "\<exists>new. snd (checked_get w req tr) = tr @ new
        \<and> (\<forall>ex\<in>set new. \<forall>c. exchange_status ex = Some c \<longrightarrow> 400 \<le> c \<longrightarrow> c < 600
              \<longrightarrow> fst (checked_get w req tr) = Inl (HTTPError c))"
    by (rule exI[of _ "[(req, w tr req)]"])
       (auto simp: checked_get_def io_bind_def requests_get_def lift_def io_return_def
          raise_for_status_def exchange_status_def split: sum.splits)
qed

lemma fail_fast_details: "fail_fast (get_commit_details w self sha)"
  unfolding get_commit_details_def checked_get_bind
  by (intro fail_fast_bind fail_fast_checked_get fail_fast_lift)

lemma fail_fast_diff: "fail_fast (get_commit_diff w self sha)"
  unfolding get_commit_diff_def checked_get_bind
  by (intro fail_fast_bind fail_fast_checked_get fail_fast_return)

lemma fail_fast_commit_record: "fail_fast (commit_record w self commit)"
  unfolding commit_record_def
  by (intro fail_fast_bind fail_fast_lift fail_fast_return fail_fast_details fail_fast_diff)

lemma fail_fast_loop: "fail_fast (history_loop w self entries commits)"
proof (induction entries arbitrary: commits)
  case Nil
  show ?case by (simp add: fail_fast_return)
next
  case (Cons c cs)
  show ?case by (simp, intro fail_fast_bind fail_fast_commit_record Cons.IH)
qed

lemma fail_fast_history: "fail_fast (get_commit_history w self n)"
  unfolding get_commit_history_def checked_get_bind
  by (intro fail_fast_bind fail_fast_checked_get fail_fast_lift fail_fast_loop)

text \<open>
  Claim C3, as amended. If any exchange of a run of \<^verbatim>\<open>get_commit_history\<close> (list,
  details or diff) has a status from 400 to 599, the statuses for which
  \<^verbatim>\<open>raise_for_status\<close> raises, the run ends with the \<^verbatim>\<open>HTTPError\<close> of that status: it
  returns no list of records.
\<close>

theorem history_fail_fast:
  assumes "ex \<in> set (snd (get_commit_history w self n []))"
    and "exchange_status ex = Some c" and "400 \<le> c" and "c < 600"
  shows "fst (get_commit_history w self n []) = Inl (HTTPError c)"
  using fail_fast_history[of w self n] assms unfolding fail_fast_def
  by (metis append_Nil)

section \<open>Request headers\<close>

lemma sends_lift: "sends Q (lift v)"
  by (simp add: sends_def lift_def)

lemma sends_return: "sends Q (io_return x)"
  by (simp add: sends_def io_return_def)

lemma sends_requests_get: "Q req \<Longrightarrow> sends Q (requests_get w req)"
  by (simp add: sends_def requests_get_def)

lemma sends_bind:
  assumes m: "sends Q m" and f: "\<And>a. sends Q (f a)"
  shows "sends Q (io_bind m f)"
  unfolding sends_def
proof
  fix tr
  from m obtain new1 where n1: "snd (m tr) = tr @ new1" "\<forall>ex\<in>set new1. Q (fst ex)"
    unfolding sends_def by blast
  show "\<exists>new. snd (io_bind m f tr) = tr @ new \<and> (\<forall>ex\<in>set new. Q (fst ex))"
  proof (cases "fst (m tr)")
    case (Inl e)
    then have "m tr = (Inl e, tr @ new1)" using n1(1) by (simp add: prod_eq_iff)
    then have "io_bind m f tr = (Inl e, tr @ new1)" by (simp add: io_bind_def)
    then show ?thesis using n1(2) by auto
  next
    case (Inr a)
    then have "m tr = (Inr a, tr @ new1)" using n1(1) by (simp add: prod_eq_iff)
    then have b: "io_bind m f tr = f a (tr @ new1)" by (simp add: io_bind_def)
    from f[of a] obtain new2 where
      n2: "snd (f a (tr @ new1)) = (tr @ new1) @ new2" "\<forall>ex\<in>set new2. Q (fst ex)"
      unfolding sends_def by blast
    have "snd (io_bind m f tr) = tr @ (new1 @ new2)" using b n2(1) by simp
    moreover have "\<forall>ex\<in>set (new1 @ new2). Q (fst ex)" using n1(2) n2(2) by auto
    ultimately show ?thesis by blast
  qed
qed

lemma authorized_requests:
  "authorized self (list_request self n)"
  "authorized self (details_request self sha)"
  "authorized self (diff_request self sha)"
  by (simp_all add: authorized_def list_request_def details_request_def diff_request_def
        update_conv')

lemma sends_loop: "sends (authorized self) (history_loop w self entries commits)"
proof (induction entries arbitrary: commits)
  case Nil
  show ?case by (simp add: sends_return)
next
  case (Cons c cs)
  have "sends (authorized self) (commit_record w self c)"
    unfolding commit_record_def get_commit_details_def get_commit_diff_def
    by (intro sends_bind sends_lift sends_return sends_requests_get authorized_requests)
  then show ?case by (simp, intro sends_bind Cons.IH)
qed

lemma sends_history: "sends (authorized self) (get_commit_history w self n)"
  unfolding get_commit_history_def
  by (intro sends_bind sends_lift sends_requests_get authorized_requests sends_loop)

section \<open>Parsing the repository URL\<close>

lemma py_split_not_Nil: "py_split c s \<noteq> []"
  by (induction s) (auto split: list.splits)

lemma py_split_snoc_sep: "py_split c (s @ [c]) = py_split c s @ [[]]"
  by (induction s) (auto split: list.splits simp: py_split_not_Nil)

lemma segments_drop_leading:
  "filter (\<lambda>s. s \<noteq> []) (py_split c (dropWhile (\<lambda>x. x = c) s)) = filter (\<lambda>s. s \<noteq> []) (py_split c s)"
  by (induction s) auto

lemma segments_drop_trailing:
  "filter (\<lambda>s. s \<noteq> []) (py_split c (rev (dropWhile (\<lambda>x. x = c) (rev s))))
     = filter (\<lambda>s. s \<noteq> []) (py_split c s)"
  by (induction s rule: rev_induct) (auto simp: py_split_snoc_sep)

lemma segments_strip:
  "filter (\<lambda>s. s \<noteq> []) (py_split c (py_strip c s)) = filter (\<lambda>s. s \<noteq> []) (py_split c s)"
  unfolding py_strip_def by (simp add: segments_drop_trailing segments_drop_leading)

lemma strip_trailing_hd:
  "rev (dropWhile P (rev t)) \<noteq> [] \<Longrightarrow> hd (rev (dropWhile P (rev t))) = hd t"
proof (induction t rule: rev_induct)
  case Nil
  then show ?case by simp
next
  case (snoc x xs)
  show ?case
  proof (cases "P x")
    case True
    with snoc have "rev (dropWhile P (rev xs)) \<noteq> []" by simp
    then have "xs \<noteq> []" by auto
    with snoc True show ?thesis by simp
  next
    case False
    then show ?thesis by simp
  qed
qed

lemma py_strip_hd: "py_strip c s \<noteq> [] \<Longrightarrow> hd (py_strip c s) \<noteq> c"
proof -
  assume a: "py_strip c s \<noteq> []"
  let ?t = "dropWhile (\<lambda>x. x = c) s"
  have t: "?t \<noteq> []" using a by (cases "?t = []") (simp_all add: py_strip_def)
  then have h: "hd ?t \<noteq> c" using hd_dropWhile[of "\<lambda>x. x = c" s] by simp
  have "hd (py_strip c s) = hd ?t"
    using a strip_trailing_hd[of "\<lambda>x. x = c" ?t] by (simp add: py_strip_def)
  with h show ?thesis by simp
qed

lemma py_split_first_nonempty:
  assumes "py_split c (py_strip c s) = p0 # p1 # rest"
  shows "p0 \<noteq> []"
proof (cases "py_strip c s")
  case Nil
  with assms show ?thesis by simp
next
  case (Cons x xs)
  then have "x \<noteq> c" using py_strip_hd[of c s] by simp
  with assms Cons show ?thesis by (auto split: list.splits)
qed

text \<open>
  Claim C4, as amended. When the path of the URL, stripped of leading and trailing
  slashes, splits on \<^verbatim>\<open>/\<close> into at least two pieces, \<^verbatim>\<open>_parse_repo_url\<close> returns the first
  two pieces; they are the first two non-empty segments of the path when the second piece
  is not empty.
\<close>

theorem parse_first_two_segments:
  assumes "urlparse url = Inr u"
    and "py_split CHR ''/'' (py_strip CHR ''/'' (path u)) = p0 # p1 # rest"
  shows "parse_repo_url urlparse url = Inr (p0, p1)
       \<and> (p1 \<noteq> [] \<longrightarrow> take 2 (nonempty_segments (path u)) = [p0, p1])"
proof -
  have "parse_repo_url urlparse url = Inr (p0, p1)"
    using assms by (simp add: parse_repo_url_def)
  moreover have "p1 \<noteq> [] \<longrightarrow> take 2 (nonempty_segments (path u)) = [p0, p1]"
  proof
    assume p1: "p1 \<noteq> []"
    have p0: "p0 \<noteq> []" using py_split_first_nonempty[OF assms(2)] .
    have "nonempty_segments (path u)
            = filter (\<lambda>s. s \<noteq> []) (py_split CHR ''/'' (py_strip CHR ''/'' (path u)))"
      by (simp add: nonempty_segments_def segments_strip)
    also have "\<dots> = p0 # p1 # filter (\<lambda>s. s \<noteq> []) rest"
      using assms(2) p0 p1 by simp
    finally show "take 2 (nonempty_segments (path u)) = [p0, p1]" by simp
  qed
  ultimately show ?thesis by blast
qed

text \<open>
  Claim C4 as stated fails on a doubled slash: the first two non-empty segments of
  \<^verbatim>\<open>/owner//repo\<close> are \<^verbatim>\<open>owner\<close> and \<^verbatim>\<open>repo\<close>, and the repository name parsed is empty.
\<close>

theorem parse_counterexample:
  "fixture_urlparse ''https://github.com/owner//repo''
     = Inr \<lparr> scheme = ''https'', netloc = ''github.com'', path = ''/owner//repo'',
             params = [], query = [], fragment = [] \<rparr>
   \<and> take 2 (nonempty_segments ''/owner//repo'') = [''owner'', ''repo'']
   \<and> parse_repo_url fixture_urlparse ''https://github.com/owner//repo'' = Inr (''owner'', [])"
  by (simp add: fixture_urlparse_def nonempty_segments_def parse_repo_url_def py_strip_def)

text \<open>The amended claim C4 on a URL with four path segments.\<close>

theorem parse_first_two_segments_witness:
  "fixture_urlparse ''https://github.com/Ramc26/RN_AI/tree/main''
     = Inr \<lparr> scheme = ''https'', netloc = ''github.com'', path = ''/Ramc26/RN_AI/tree/main'',
             params = [], query = [], fragment = [] \<rparr>
   \<and> py_split CHR ''/'' (py_strip CHR ''/'' ''/Ramc26/RN_AI/tree/main'')
       = ''Ramc26'' # ''RN_AI'' # [''tree'', ''main'']
   \<and> parse_repo_url fixture_urlparse ''https://github.com/Ramc26/RN_AI/tree/main''
       = Inr (''Ramc26'', ''RN_AI'')
   \<and> take 2 (nonempty_segments ''/Ramc26/RN_AI/tree/main'') = [''Ramc26'', ''RN_AI'']"
  using parse_first_two_segments
          [of fixture_urlparse "''https://github.com/Ramc26/RN_AI/tree/main''"
              "\<lparr> scheme = ''https'', netloc = ''github.com'', path = ''/Ramc26/RN_AI/tree/main'',
                 params = [], query = [], fragment = [] \<rparr>"
              "''Ramc26''" "''RN_AI''" "[''tree'', ''main'']"]
  by (simp add: fixture_urlparse_def py_strip_def)

lemma first_two_cong:
  fixes xs ys :: "string list"
  assumes "take 2 xs = take 2 ys"
  shows "(case xs of p0 # p1 # _ \<Rightarrow> Inr (p0, p1) | _ \<Rightarrow> Inl IndexError)
       = (case ys of p0 # p1 # _ \<Rightarrow> Inr (p0, p1) | _ \<Rightarrow> (Inl IndexError :: pyerr + string \<times> string))"
proof (cases xs)
  case Nil
  with assms show ?thesis by (cases ys) simp_all
next
  case (Cons x xs')
  note X = this
  show ?thesis
  proof (cases xs')
    case Nil
    with X assms show ?thesis by (cases ys; cases "tl ys") auto
  next
    case (Cons x' xs'')
    with X assms show ?thesis by (cases ys; cases "tl ys") auto
  qed
qed

text \<open>
  Claim C10. \<^verbatim>\<open>_parse_repo_url\<close> reads only the path of the parsed URL, and of the path
  only the first two pieces: two URLs whose stripped paths agree on their first two
  pieces parse alike (to the same pair or the same error), whatever their schemes, hosts,
  queries, fragments and further segments.
\<close>

theorem parse_depends_on_path_only:
  assumes "urlparse url1 = Inr u1" and "urlparse url2 = Inr u2"
    and "take 2 (py_split CHR ''/'' (py_strip CHR ''/'' (path u1)))
         = take 2 (py_split CHR ''/'' (py_strip CHR ''/'' (path u2)))"
  shows "parse_repo_url urlparse url1 = parse_repo_url urlparse url2"
  using assms(1,2) first_two_cong[OF assms(3)] by (simp add: parse_repo_url_def)

lemma sends_extends: "sends Q m \<Longrightarrow> \<exists>new. snd (m tr) = tr @ new"
  unfolding sends_def by blast

lemma history_first_exchange:
  "\<exists>rest. snd (get_commit_history w self n [])
            = (list_request self n, w [] (list_request self n)) # rest"
proof (cases "w [] (list_request self n)")
  case (Inl e)
  then show ?thesis
    by (simp add: get_commit_history_def io_bind_def requests_get_def)
next
  case (Inr r)
  let ?k = "io_bind (lift (raise_for_status r)) (\<lambda>_.
            io_bind (lift (response_json r)) (\<lambda>body.
            io_bind (lift (py_iter body)) (\<lambda>entries.
            history_loop w self entries [])))"
  have "sends (authorized self) ?k"
    by (intro sends_bind sends_lift sends_loop)
  from sends_extends[OF this, of "[(list_request self n, Inr r)]"]
  obtain new where "snd (?k [(list_request self n, Inr r)]) = [(list_request self n, Inr r)] @ new"
    by blast
  moreover have "get_commit_history w self n [] = ?k [(list_request self n, Inr r)]"
    using Inr by (simp add: get_commit_history_def io_bind_def requests_get_def)
  ultimately show ?thesis using Inr by simp
qed

lemma history_authorized:
  "ex \<in> set (snd (get_commit_history w self n [])) \<Longrightarrow>
     map_of (req_headers (fst ex)) ''Authorization'' = map_of (headers self) ''Authorization''"
  using sends_history[of self w n] unfolding sends_def authorized_def
  by (metis append_Nil)

lemma init_headers:
  "GitHubRepoAnalyzer_init env urlparse url branch_name = Inr self \<Longrightarrow>
     headers self = [(''Authorization'', ''Bearer '' @ py_str (os_getenv env ''GITHUB_TOKEN'')),
                     (''Accept'', ''application/vnd.github+json'')]"
  by (auto simp: GitHubRepoAnalyzer_init_def split: sum.splits)

lemma details_issues: "map fst (snd (get_commit_details w self sha [])) = [details_request self sha]"
  by (simp add: get_commit_details_def io_bind_def requests_get_def lift_def split: sum.splits)

lemma diff_issues: "map fst (snd (get_commit_diff w self sha [])) = [diff_request self sha]"
  by (simp add: get_commit_diff_def io_bind_def requests_get_def lift_def io_return_def
        split: sum.splits)

text \<open>
  Claim C8. Every request of a run of \<^verbatim>\<open>get_commit_history\<close> carries the header
  \<^verbatim>\<open>Authorization: Bearer <token>\<close> set by the constructor; the diff request has the URL
  and parameters of the details request, and its headers are those of the details request
  with \<^verbatim>\<open>Accept\<close> set to the diff media type instead of the JSON one.
\<close>

theorem requests_authorized:
  assumes "GitHubRepoAnalyzer_init env urlparse url branch_name = Inr self"
  shows "(\<forall>ex\<in>set (snd (get_commit_history w self n [])).
            map_of (req_headers (fst ex)) ''Authorization''
              = Some (''Bearer '' @ py_str (os_getenv env ''GITHUB_TOKEN'')))
       \<and> map fst (snd (get_commit_details w self sha [])) = [details_request self sha]
       \<and> map fst (snd (get_commit_diff w self sha [])) = [diff_request self sha]
       \<and> req_url (diff_request self sha) = req_url (details_request self sha)
       \<and> req_params (diff_request self sha) = req_params (details_request self sha)
       \<and> map_of (req_headers (diff_request self sha))
           = (map_of (req_headers (details_request self sha)))
               (''Accept'' \<mapsto> ''application/vnd.github.v3.diff'')
       \<and> map_of (req_headers (details_request self sha)) ''Accept''
           = Some ''application/vnd.github+json''"
proof -
  note h = init_headers[OF assms]
  have "\<forall>ex\<in>set (snd (get_commit_history w self n [])).
            map_of (req_headers (fst ex)) ''Authorization''
              = Some (''Bearer '' @ py_str (os_getenv env ''GITHUB_TOKEN''))"
    using history_authorized[of _ w self n] h by simp
  moreover have "req_url (diff_request self sha) = req_url (details_request self sha)"
    "req_params (diff_request self sha) = req_params (details_request self sha)"
    by (simp_all add: diff_request_def details_request_def)
  moreover have "map_of (req_headers (diff_request self sha))
           = (map_of (req_headers (details_request self sha)))
               (''Accept'' \<mapsto> ''application/vnd.github.v3.diff'')"
    by (simp add: diff_request_def details_request_def update_conv')
  moreover have "map_of (req_headers (details_request self sha)) ''Accept''
           = Some ''application/vnd.github+json''"
    using h by (simp add: details_request_def)
  ultimately show ?thesis using details_issues diff_issues by blast
qed

section \<open>Configuration\<close>

lemma main_body_log:
  "GitHubRepoAnalyzer_init env urlparse u b = Inr self \<Longrightarrow>
     http_log (main_body env urlparse w llm_invoke u b n) = snd (get_commit_history w self n [])"
  by (simp add: main_body_def split: prod.splits sum.splits)

lemma py_int_of_str_error: "py_int_of_str s = Inl e \<Longrightarrow> \<exists>msg. e = ValueError msg"
  by (auto simp: py_int_of_str_def Let_def split: option.splits if_splits)

lemma main_present:
  assumes "env ''REPO_URL'' = Some u" "u \<noteq> []" "env ''BRANCH_NAME'' = Some b" "b \<noteq> []"
    and "(case env ''MAX_COMMITS'' of None \<Rightarrow> Inr 2 | Some s \<Rightarrow> py_int_of_str s) = Inr n"
  shows "main env urlparse w llm_invoke = main_body env urlparse w llm_invoke u b n"
  using assms by (simp add: main_def)

lemma main_missing:
  assumes "missing (env ''REPO_URL'') \<or> missing (env ''BRANCH_NAME'')"
  shows "(\<exists>msg. outcome (main env urlparse w llm_invoke) = Inl (ValueError msg))
       \<and> http_log (main env urlparse w llm_invoke) = []
       \<and> llm_calls (main env urlparse w llm_invoke) = []"
proof (cases "case env ''MAX_COMMITS'' of None \<Rightarrow> Inr 2 | Some s \<Rightarrow> py_int_of_str s")
  case (Inl e)
  then obtain msg where "e = ValueError msg"
    using py_int_of_str_error by (auto split: option.splits)
  with Inl show ?thesis by (simp add: main_def)
next
  case (Inr n)
  with assms show ?thesis
    by (auto simp: main_def missing_def split: option.splits)
qed

text \<open>
  Claim C6. When \<^verbatim>\<open>REPO_URL\<close> or \<^verbatim>\<open>BRANCH_NAME\<close> is missing the script ends with a
  \<^verbatim>\<open>ValueError\<close> without any HTTP request or model call; when both are present and
  \<^verbatim>\<open>MAX_COMMITS\<close> is not set, the script runs with \<open>max_commits = 2\<close>, and its first
  request is the list request for two commits.
\<close>

theorem config_checked_first:
  "(missing (env ''REPO_URL'') \<or> missing (env ''BRANCH_NAME'') \<longrightarrow>
      (\<exists>msg. outcome (main env urlparse w llm_invoke) = Inl (ValueError msg))
      \<and> http_log (main env urlparse w llm_invoke) = []
      \<and> llm_calls (main env urlparse w llm_invoke) = [])
 \<and> (env ''REPO_URL'' = Some u \<and> u \<noteq> [] \<and> env ''BRANCH_NAME'' = Some b \<and> b \<noteq> []
      \<and> env ''MAX_COMMITS'' = None \<longrightarrow>
      main env urlparse w llm_invoke = main_body env urlparse w llm_invoke u b 2
      \<and> (\<forall>self. GitHubRepoAnalyzer_init env urlparse u b = Inr self \<longrightarrow>
            map fst (take 1 (http_log (main env urlparse w llm_invoke))) = [list_request self 2]))"
proof (intro conjI impI allI)
  fix self
  assume a: "env ''REPO_URL'' = Some u \<and> u \<noteq> [] \<and> env ''BRANCH_NAME'' = Some b \<and> b \<noteq> []
      \<and> env ''MAX_COMMITS'' = None"
    and i: "GitHubRepoAnalyzer_init env urlparse u b = Inr self"
  have m: "main env urlparse w llm_invoke = main_body env urlparse w llm_invoke u b 2"
    using a by (simp add: main_def)
  obtain rest where "snd (get_commit_history w self 2 [])
            = (list_request self 2, w [] (list_request self 2)) # rest"
    using history_first_exchange by blast
  then show "map fst (take 1 (http_log (main env urlparse w llm_invoke))) = [list_request self 2]"
    using m main_body_log[OF i] by simp
qed (use main_missing in \<open>auto simp: main_def\<close>)

text \<open>
  Claim C9. With \<^verbatim>\<open>GITHUB_TOKEN\<close> unset and the two required values present, the check
  of lines 106 and 107 passes, the constructor builds the header
  \<^verbatim>\<open>Authorization: Bearer None\<close>, and the script sends at least one request, each with
  that header.
\<close>

theorem missing_token_not_checked:
  assumes "env ''GITHUB_TOKEN'' = None"
    and "env ''REPO_URL'' = Some u" and "u \<noteq> []"
    and "env ''BRANCH_NAME'' = Some b" and "b \<noteq> []"
    and "(case env ''MAX_COMMITS'' of None \<Rightarrow> Inr 2 | Some s \<Rightarrow> py_int_of_str s) = Inr n"
    and "parse_repo_url urlparse u = Inr (own, rep)"
  shows "main env urlparse w llm_invoke = main_body env urlparse w llm_invoke u b n
       \<and> GitHubRepoAnalyzer_init env urlparse u b
           = Inr \<lparr> repo_url = u, branch = b,
                   headers = [(''Authorization'', ''Bearer None''),
                              (''Accept'', ''application/vnd.github+json'')],
                   owner = own, repo = rep \<rparr>
       \<and> http_log (main env urlparse w llm_invoke) \<noteq> []
       \<and> (\<forall>ex\<in>set (http_log (main env urlparse w llm_invoke)).
             map_of (req_headers (fst ex)) ''Authorization'' = Some ''Bearer None'')"
proof -
  let ?self = "\<lparr> repo_url = u, branch = b,
                   headers = [(''Authorization'', ''Bearer None''),
                              (''Accept'', ''application/vnd.github+json'')],
                   owner = own, repo = rep \<rparr>"
  have m: "main env urlparse w llm_invoke = main_body env urlparse w llm_invoke u b n"
    using assms(2-6) by (rule main_present)
  have i: "GitHubRepoAnalyzer_init env urlparse u b = Inr ?self"
    using assms(1,7) by (simp add: GitHubRepoAnalyzer_init_def os_getenv_def)
  have l: "http_log (main env urlparse w llm_invoke) = snd (get_commit_history w ?self n [])"
    using m main_body_log[OF i] by simp
  have "http_log (main env urlparse w llm_invoke) \<noteq> []"
    using l history_first_exchange[of w ?self n] by auto
  moreover have "\<forall>ex\<in>set (http_log (main env urlparse w llm_invoke)).
             map_of (req_headers (fst ex)) ''Authorization'' = Some ''Bearer None''"
    using l history_authorized[of _ w ?self n] by simp
  ultimately show ?thesis using m i by blast
qed

section \<open>The prompt\<close>

lemma head_sections:
  "sublist ''1. Overview of changes'' prompt_head"
  "sublist ''2. Technical breakdown by category'' prompt_head"
  "sublist ''3. Notable code modifications'' prompt_head"
  "sublist ''4. Files changed summary'' prompt_head"
  by code_simp+

text \<open>
  Claim C7. For every list of commits, the empty one included,
  \<^verbatim>\<open>generate_release_notes\<close> makes exactly one model call and returns its result; the
  prompt is the template around the rendered list and contains the four section lines.
\<close>

theorem generate_one_call:
  "length (snd (generate_release_notes llm_invoke commits)) = 1
 \<and> fst (generate_release_notes llm_invoke commits)
     = llm_invoke (hd (snd (generate_release_notes llm_invoke commits)))
 \<and> prompt (hd (snd (generate_release_notes llm_invoke commits)))
     = prompt_head @ py_str (PList commits) @ prompt_tail
 \<and> sublist ''1. Overview of changes'' (prompt (hd (snd (generate_release_notes llm_invoke commits))))
 \<and> sublist ''2. Technical breakdown by category''
      (prompt (hd (snd (generate_release_notes llm_invoke commits))))
 \<and> sublist ''3. Notable code modifications''
      (prompt (hd (snd (generate_release_notes llm_invoke commits))))
 \<and> sublist ''4. Files changed summary''
      (prompt (hd (snd (generate_release_notes llm_invoke commits))))"
  using head_sections by (simp add: generate_release_notes_def Let_def sublist_append)

section \<open>The theorems on the fixtures\<close>

lemma fixture_run:
  "fst (get_commit_history (paged_world 100 [''a1'', ''b2''] 200) fixture_self 2 [])
     = Inr [fixture_record ''a1'', fixture_record ''b2'']"
  by code_simp

lemma fixture_entries:
  "list_entries (snd (get_commit_history (paged_world 100 [''a1'', ''b2''] 200) fixture_self 2 []))
     = [PDict [(''sha'', PStr ''a1'')], PDict [(''sha'', PStr ''b2'')]]"
  by code_simp

text \<open>The amended claim C1 on a server with two commits.\<close>

theorem history_one_record_per_entry_witness:
  "fst (get_commit_history (paged_world 100 [''a1'', ''b2''] 200) fixture_self 2 [])
     = Inr [fixture_record ''a1'', fixture_record ''b2'']
 \<and> length [fixture_record ''a1'', fixture_record ''b2'']
     = length (list_entries (snd (get_commit_history (paged_world 100 [''a1'', ''b2''] 200) fixture_self 2 [])))
 \<and> map (\<lambda>r. py_getitem r ''sha'') [fixture_record ''a1'', fixture_record ''b2'']
     = map (\<lambda>c. py_getitem c ''sha'')
         (list_entries (snd (get_commit_history (paged_world 100 [''a1'', ''b2''] 200) fixture_self 2 [])))"
  using fixture_run
    history_one_record_per_entry
      [of "paged_world 100 [''a1'', ''b2''] 200" fixture_self 2
          "[fixture_record ''a1'', fixture_record ''b2'']"]
  by blast

text \<open>
  Claim C1 as stated fails: a server that holds two commits and caps a page at one entry
  answers \<^verbatim>\<open>per_page=2\<close> with one entry, and the function returns one record, not
  \<open>min 2 2\<close>.
\<close>

theorem history_count_counterexample:
  "fst (get_commit_history (paged_world 1 [''a1'', ''b2''] 200) fixture_self 2 [])
     = Inr [fixture_record ''a1'']
 \<and> length [fixture_record ''a1''] \<noteq> min 2 (length [''a1'', ''b2''])"
proof -
  have "fst (get_commit_history (paged_world 1 [''a1'', ''b2''] 200) fixture_self 2 [])
     = Inr [fixture_record ''a1'']"
    by code_simp
  then show ?thesis by simp
qed

text \<open>The amended claim C5 on a server with two commits: five requests.\<close>

theorem history_requests_witness:
  "fst (get_commit_history (paged_world 100 [''a1'', ''b2''] 200) fixture_self 2 [])
     = Inr [fixture_record ''a1'', fixture_record ''b2'']
 \<and> map fst (snd (get_commit_history (paged_world 100 [''a1'', ''b2''] 200) fixture_self 2 []))
     = [list_request fixture_self 2,
        details_request fixture_self (PStr ''a1''), diff_request fixture_self (PStr ''a1''),
        details_request fixture_self (PStr ''b2''), diff_request fixture_self (PStr ''b2'')]
 \<and> length (snd (get_commit_history (paged_world 100 [''a1'', ''b2''] 200) fixture_self 2 [])) = 5"
  using fixture_run fixture_entries
    history_requests
      [of "paged_world 100 [''a1'', ''b2''] 200" fixture_self 2
          "[fixture_record ''a1'', fixture_record ''b2'']"]
  by (simp add: commit_requests_def entry_sha_def)

text \<open>
  Claim C5 as stated fails: with \<open>max_commits = 2\<close> on a branch with one commit the run
  succeeds with three requests, not \<open>1 + 2 * 2\<close>.
\<close>

theorem request_count_counterexample:
  "fst (get_commit_history (paged_world 100 [''a1''] 200) fixture_self 2 [])
     = Inr [fixture_record ''a1'']
 \<and> length (snd (get_commit_history (paged_world 100 [''a1''] 200) fixture_self 2 [])) = 3
 \<and> (3::int) \<noteq> 1 + 2 * 2"
proof -
  have "fst (get_commit_history (paged_world 100 [''a1''] 200) fixture_self 2 [])
     = Inr [fixture_record ''a1'']"
    by code_simp
  moreover have "length (snd (get_commit_history (paged_world 100 [''a1''] 200) fixture_self 2 [])) = 3"
    by code_simp
  ultimately show ?thesis by simp
qed

text \<open>Claim C2 on the first commit of the fixture server.\<close>

theorem files_formatted_witness:
  "fst (get_commit_history (paged_world 100 [''a1'', ''b2''] 200) fixture_self 2 [])
     = Inr [fixture_record ''a1'', fixture_record ''b2'']
 \<and> (0::nat) < length [fixture_record ''a1'', fixture_record ''b2'']
 \<and> py_getitem ([fixture_record ''a1'', fixture_record ''b2''] ! 0) ''files''
     = Inr (PList [PStr ''main.py (3 changes)''])"
  using fixture_run
    files_formatted
      [of "paged_world 100 [''a1'', ''b2''] 200" fixture_self 2
          "[fixture_record ''a1'', fixture_record ''b2'']" 0]
  by (simp add: fixture_record_def)

text \<open>
  Claim C3 as stated fails for a status outside 200 to 299 that is not an error status:
  a list call answered 302 with a JSON body passes \<^verbatim>\<open>raise_for_status\<close>, and the run
  returns a record.
\<close>

theorem history_non_success_counterexample:
  "fst (get_commit_history (list_status_world 302 (paged_world 100 [''a1''] 200)) fixture_self 2 [])
     = Inr [fixture_record ''a1'']
 \<and> map exchange_status
       (snd (get_commit_history (list_status_world 302 (paged_world 100 [''a1''] 200)) fixture_self 2 []))
     = [Some 302, Some 200, Some 200]
 \<and> \<not> (200 \<le> (302::int) \<and> (302::int) < 300)"
proof -
  have "fst (get_commit_history (list_status_world 302 (paged_world 100 [''a1''] 200)) fixture_self 2 [])
     = Inr [fixture_record ''a1'']"
    by code_simp
  moreover have "map exchange_status
       (snd (get_commit_history (list_status_world 302 (paged_world 100 [''a1''] 200)) fixture_self 2 []))
     = [Some 302, Some 200, Some 200]"
    by code_simp
  ultimately show ?thesis by simp
qed

text \<open>The amended claim C3 on a server whose diff endpoint answers 500.\<close>

theorem history_fail_fast_witness:
  "(diff_request fixture_self (PStr ''a1''),
    Inr \<lparr> status_code = 500, text_body = ''+a'' @ nl @ ''-b'' @ nl @ '' c'', json_body = None \<rparr>)
     \<in> set (snd (get_commit_history (paged_world 100 [''a1'', ''b2''] 500) fixture_self 2 []))
 \<and> exchange_status
      (diff_request fixture_self (PStr ''a1''),
       Inr \<lparr> status_code = 500, text_body = ''+a'' @ nl @ ''-b'' @ nl @ '' c'', json_body = None \<rparr>)
     = Some 500
 \<and> (400::int) \<le> 500 \<and> (500::int) < 600
 \<and> fst (get_commit_history (paged_world 100 [''a1'', ''b2''] 500) fixture_self 2 [])
     = Inl (HTTPError 500)"
proof -
  let ?ex = "(diff_request fixture_self (PStr ''a1''),
    Inr \<lparr> status_code = 500, text_body = ''+a'' @ nl @ ''-b'' @ nl @ '' c'', json_body = None \<rparr>)"
  have m: "?ex \<in> set (snd (get_commit_history (paged_world 100 [''a1'', ''b2''] 500) fixture_self 2 []))"
    by code_simp
  have s: "exchange_status ?ex = Some 500" by (simp add: exchange_status_def)
  from history_fail_fast[of ?ex "paged_world 100 [''a1'', ''b2''] 500" fixture_self 2 500] m s
  show ?thesis by simp
qed

lemma fixture_init:
  "GitHubRepoAnalyzer_init fixture_env fixture_urlparse ''https://github.com/Ramc26/RN_AI'' ''main''
     = Inr fixture_self"
  by code_simp

text \<open>Claim C6 on the empty environment and on the fixture environment.\<close>

theorem config_checked_first_witness:
  "(missing (Map.empty ''REPO_URL'')
    \<and> outcome (main Map.empty fixture_urlparse (paged_world 100 [''a1'', ''b2''] 200) fixture_llm)
        = Inl (ValueError missing_message)
    \<and> http_log (main Map.empty fixture_urlparse (paged_world 100 [''a1'', ''b2''] 200) fixture_llm) = []
    \<and> llm_calls (main Map.empty fixture_urlparse (paged_world 100 [''a1'', ''b2''] 200) fixture_llm) = [])
 \<and> (fixture_env ''REPO_URL'' = Some ''https://github.com/Ramc26/RN_AI''
    \<and> fixture_env ''BRANCH_NAME'' = Some ''main''
    \<and> fixture_env ''MAX_COMMITS'' = None
    \<and> main fixture_env fixture_urlparse (paged_world 100 [''a1'', ''b2''] 200) fixture_llm
        = main_body fixture_env fixture_urlparse (paged_world 100 [''a1'', ''b2''] 200) fixture_llm
            ''https://github.com/Ramc26/RN_AI'' ''main'' 2
    \<and> map fst (take 1 (http_log
          (main fixture_env fixture_urlparse (paged_world 100 [''a1'', ''b2''] 200) fixture_llm)))
        = [list_request fixture_self 2])"
proof -
  have e: "fixture_env ''REPO_URL'' = Some ''https://github.com/Ramc26/RN_AI''"
    "fixture_env ''BRANCH_NAME'' = Some ''main''" "fixture_env ''MAX_COMMITS'' = None"
    by (simp_all add: fixture_env_def)
  have m: "missing (Map.empty ''REPO_URL'')" by (simp add: missing_def)
  have o: "outcome (main Map.empty fixture_urlparse (paged_world 100 [''a1'', ''b2''] 200) fixture_llm)
        = Inl (ValueError missing_message)"
    by (simp add: main_def)
  from config_checked_first
         [of Map.empty fixture_urlparse "paged_world 100 [''a1'', ''b2''] 200" fixture_llm] m
  have a: "http_log (main Map.empty fixture_urlparse (paged_world 100 [''a1'', ''b2''] 200) fixture_llm) = []
    \<and> llm_calls (main Map.empty fixture_urlparse (paged_world 100 [''a1'', ''b2''] 200) fixture_llm) = []"
    by blast
  have u: "''https://github.com/Ramc26/RN_AI'' \<noteq> []" "''main'' \<noteq> []" by simp_all
  from config_checked_first
         [of fixture_env fixture_urlparse "paged_world 100 [''a1'', ''b2''] 200" fixture_llm
             "''https://github.com/Ramc26/RN_AI''" "''main''"]
  have b: "main fixture_env fixture_urlparse (paged_world 100 [''a1'', ''b2''] 200) fixture_llm
        = main_body fixture_env fixture_urlparse (paged_world 100 [''a1'', ''b2''] 200) fixture_llm
            ''https://github.com/Ramc26/RN_AI'' ''main'' 2
    \<and> map fst (take 1 (http_log
          (main fixture_env fixture_urlparse (paged_world 100 [''a1'', ''b2''] 200) fixture_llm)))
        = [list_request fixture_self 2]"
    using e u fixture_init by blast
  from m o a e b show ?thesis by blast
qed

text \<open>Claim C8 on the fixture server.\<close>

theorem requests_authorized_witness:
  "GitHubRepoAnalyzer_init fixture_env fixture_urlparse ''https://github.com/Ramc26/RN_AI'' ''main''
     = Inr fixture_self
 \<and> list_all (\<lambda>ex. map_of (req_headers (fst ex)) ''Authorization'' = Some ''Bearer ghp_x'')
      (snd (get_commit_history (paged_world 100 [''a1'', ''b2''] 200) fixture_self 2 []))
 \<and> length (snd (get_commit_history (paged_world 100 [''a1'', ''b2''] 200) fixture_self 2 [])) = 5
 \<and> map_of (req_headers (diff_request fixture_self (PStr ''a1''))) ''Accept''
     = Some ''application/vnd.github.v3.diff''
 \<and> map_of (req_headers (details_request fixture_self (PStr ''a1''))) ''Accept''
     = Some ''application/vnd.github+json''"
proof -
  have t: "''Bearer '' @ py_str (os_getenv fixture_env ''GITHUB_TOKEN'') = ''Bearer ghp_x''"
    by (simp add: os_getenv_def fixture_env_def)
  have l: "length (snd (get_commit_history (paged_world 100 [''a1'', ''b2''] 200) fixture_self 2 [])) = 5"
    by code_simp
  from requests_authorized
         [OF fixture_init, of "paged_world 100 [''a1'', ''b2''] 200" 2 "PStr ''a1''"] t l fixture_init
  show ?thesis by (simp add: list_all_iff)
qed

text \<open>Claim C9 on the fixture environment without a token.\<close>

theorem missing_token_not_checked_witness:
  "fixture_env_no_token ''GITHUB_TOKEN'' = None
 \<and> fixture_env_no_token ''REPO_URL'' = Some ''https://github.com/Ramc26/RN_AI''
 \<and> fixture_env_no_token ''BRANCH_NAME'' = Some ''main''
 \<and> fixture_env_no_token ''MAX_COMMITS'' = None
 \<and> parse_repo_url fixture_urlparse ''https://github.com/Ramc26/RN_AI'' = Inr (''Ramc26'', ''RN_AI'')
 \<and> http_log (main fixture_env_no_token fixture_urlparse (paged_world 100 [''a1'', ''b2''] 200) fixture_llm)
     \<noteq> []
 \<and> list_all (\<lambda>ex. map_of (req_headers (fst ex)) ''Authorization'' = Some ''Bearer None'')
      (http_log (main fixture_env_no_token fixture_urlparse (paged_world 100 [''a1'', ''b2''] 200)
         fixture_llm))"
proof -
  have e: "fixture_env_no_token ''GITHUB_TOKEN'' = None"
    "fixture_env_no_token ''REPO_URL'' = Some ''https://github.com/Ramc26/RN_AI''"
    "fixture_env_no_token ''BRANCH_NAME'' = Some ''main''"
    "fixture_env_no_token ''MAX_COMMITS'' = None"
    by (simp_all add: fixture_env_no_token_def)
  have p: "parse_repo_url fixture_urlparse ''https://github.com/Ramc26/RN_AI'' = Inr (''Ramc26'', ''RN_AI'')"
    by code_simp
  have n: "(case fixture_env_no_token ''MAX_COMMITS'' of None \<Rightarrow> Inr 2 | Some s \<Rightarrow> py_int_of_str s)
             = Inr 2"
    using e by simp
  have u: "''https://github.com/Ramc26/RN_AI'' \<noteq> []" "''main'' \<noteq> []" by simp_all
  note c = missing_token_not_checked
         [OF e(1) e(2) u(1) e(3) u(2) n p, of "paged_world 100 [''a1'', ''b2''] 200" fixture_llm]
  have "http_log (main fixture_env_no_token fixture_urlparse (paged_world 100 [''a1'', ''b2''] 200)
          fixture_llm) \<noteq> []"
    using c by blast
  moreover have "list_all (\<lambda>ex. map_of (req_headers (fst ex)) ''Authorization'' = Some ''Bearer None'')
      (http_log (main fixture_env_no_token fixture_urlparse (paged_world 100 [''a1'', ''b2''] 200)
         fixture_llm))"
    unfolding list_all_iff using c by blast
  ultimately show ?thesis using e p by blast
qed

text \<open>Claim C10 on two URLs that differ in scheme, host, query, fragment and a third segment.\<close>

theorem parse_depends_on_path_only_witness:
  "fixture_urlparse_ext ''https://github.com/Ramc26/RN_AI''
     = Inr \<lparr> scheme = ''https'', netloc = ''github.com'', path = ''/Ramc26/RN_AI'',
             params = [], query = [], fragment = [] \<rparr>
 \<and> fixture_urlparse_ext ''http://example.org/Ramc26/RN_AI/issues?x=1#top''
     = Inr \<lparr> scheme = ''http'', netloc = ''example.org'', path = ''/Ramc26/RN_AI/issues'',
             params = [], query = ''x=1'', fragment = ''top'' \<rparr>
 \<and> take 2 (py_split CHR ''/'' (py_strip CHR ''/'' ''/Ramc26/RN_AI''))
     = take 2 (py_split CHR ''/'' (py_strip CHR ''/'' ''/Ramc26/RN_AI/issues''))
 \<and> parse_repo_url fixture_urlparse_ext ''https://github.com/Ramc26/RN_AI''
     = parse_repo_url fixture_urlparse_ext ''http://example.org/Ramc26/RN_AI/issues?x=1#top''"
  using parse_depends_on_path_only
          [of fixture_urlparse_ext "''https://github.com/Ramc26/RN_AI''"
              "\<lparr> scheme = ''https'', netloc = ''github.com'', path = ''/Ramc26/RN_AI'',
                 params = [], query = [], fragment = [] \<rparr>"
              "''http://example.org/Ramc26/RN_AI/issues?x=1#top''"
              "\<lparr> scheme = ''http'', netloc = ''example.org'', path = ''/Ramc26/RN_AI/issues'',
                 params = [], query = ''x=1'', fragment = ''top'' \<rparr>"]
  by (simp add: fixture_urlparse_ext_def fixture_urlparse_def py_strip_def)

end
